theory Spec2Isabelle
  imports Main "HOL-Library.Word"
begin

unbundle bit_operations_syntax

section \<open>JavaScript primitives the service relies on\<close>

type_synonym byte = "8 word"

text \<open>
  Digits of \<open>Number.prototype.toString(radix)\<close> and \<open>BigInt.prototype.toString()\<close>:
  lowercase, most significant digit first, no leading zeros.
\<close>

definition digit_char :: "nat \<Rightarrow> char" where
  "digit_char d = ''0123456789abcdefghijklmnopqrstuvwxyz'' ! d"

function toString_radix :: "nat \<Rightarrow> nat \<Rightarrow> string" where
  "toString_radix r n =
     (if r < 2 \<or> n < r then [digit_char n]
      else toString_radix r (n div r) @ [digit_char (n mod r)])"
  by pat_completeness auto
termination
  by (relation "measure snd") auto

text \<open>\<open>bigint.toString()\<close>: a minus sign, then the decimal digits of the magnitude.\<close>

definition bigint_toString :: "int \<Rightarrow> string" where
  "bigint_toString i =
     (if i < 0 then CHR ''-'' # toString_radix 10 (nat (- i)) else toString_radix 10 (nat i))"

text \<open>
  BigInt \<open>/\<close> truncates towards zero and \<open>%\<close> takes the sign of the dividend
  (HOL's \<open>div\<close> and \<open>mod\<close> on \<open>int\<close> round down instead).
\<close>

definition bigint_div :: "int \<Rightarrow> int \<Rightarrow> int" where
  "bigint_div a b = sgn a * sgn b * (\<bar>a\<bar> div \<bar>b\<bar>)"

definition bigint_rem :: "int \<Rightarrow> int \<Rightarrow> int" where
  "bigint_rem a b = sgn a * (\<bar>a\<bar> mod \<bar>b\<bar>)"

text \<open>\<open>s.padStart(n, c)\<close> for a one-character pad string \<open>c\<close>.\<close>

definition padStart :: "nat \<Rightarrow> char \<Rightarrow> string \<Rightarrow> string" where
  "padStart n c s = replicate (n - length s) c @ s"

text \<open>\<open>s.replace(/0+$/, "")\<close>: the longest run of \<open>0\<close> at the end is removed.\<close>

definition strip_trailing_zeros :: "string \<Rightarrow> string" where
  "strip_trailing_zeros s = rev (dropWhile (\<lambda>c. c = CHR ''0'') (rev s))"

text \<open>\<open>s.slice(-n)\<close>: the last \<open>n\<close> characters (all of \<open>s\<close> when it is shorter).\<close>

definition slice_last :: "nat \<Rightarrow> string \<Rightarrow> string" where
  "slice_last n s = drop (length s - n) s"

text \<open>\<open>new TextEncoder().encode(s)\<close> on a string of single-byte characters.\<close>

definition TextEncoder_encode :: "string \<Rightarrow> byte list" where
  "TextEncoder_encode s = map of_char s"

subsection \<open>The Number \<open>10 ** decimals\<close>\<close>

text \<open>
  \<open>10 ** decimals\<close> is Number arithmetic: its value is an IEEE 754 binary64, which has a
  53-bit significand. The language leaves the accuracy of \<open>**\<close> to the engine. The model
  takes the correctly rounded power (round to nearest, ties to even); the result is the
  integer the double denotes, and \<open>None\<close> when it overflows to \<open>Infinity\<close>. An engine may
  return a neighbouring double instead, as V8 does for some exponents (26 and 29 among
  them), so \<open>number_pow10\<close> stands for the engine only where the two agree: up to 22
  decimals, where the power is exact, and at 24 and 25 decimals, where the theorems below
  evaluate it. What is proved for every divisor (\<open>formatBalance_with\<close>) and for every
  binary64 divisor (\<open>is_binary64\<close>) does not depend on the engine's rounding.
\<close>

fun bit_length :: "nat \<Rightarrow> nat" where
  "bit_length n = (if n = 0 then 0 else Suc (bit_length (n div 2)))"

definition round_binary64 :: "nat \<Rightarrow> nat" where
  "round_binary64 n =
     (if bit_length n \<le> 53 then n
      else let e = bit_length n - 53;
               q = n div 2 ^ e;
               r = n mod 2 ^ e;
               half = 2 ^ (e - 1)
           in (if half < r \<or> (r = half \<and> odd q) then q + 1 else q) * 2 ^ e)"

definition is_binary64 :: "nat \<Rightarrow> bool" where
  "is_binary64 n = (round_binary64 n = n \<and> n < 2 ^ 1024)"

definition number_pow10 :: "nat \<Rightarrow> nat option" where
  "number_pow10 d =
     (let p = round_binary64 (10 ^ d) in if p < 2 ^ 1024 then Some p else None)"

section \<open>Balance formatting\<close>

datatype format_error = RangeError

text \<open>
  \<open>BigInt(10 ** decimals)\<close>: \<open>BigInt\<close> throws a RangeError on a Number that is not an
  integer (a negative exponent gives a fraction or 0, and then the division by \<open>0n\<close>
  throws) and on \<open>Infinity\<close>. The parameter \<open>decimals\<close> is taken to be an integer, as the
  ledger's \<open>nat8\<close> is.
\<close>

definition formatBalance_divisor :: "int \<Rightarrow> format_error + int" where
  "formatBalance_divisor decimals =
     (if decimals < 0 then Inl RangeError
      else case number_pow10 (nat decimals) of
             None \<Rightarrow> Inl RangeError
           | Some p \<Rightarrow> Inr (int p))"

text \<open>The body of \<open>formatBalance\<close> once \<open>divisor\<close> is bound.\<close>

definition formatBalance_with :: "int \<Rightarrow> int \<Rightarrow> int \<Rightarrow> string" where
  "formatBalance_with divisor balance decimals =
     (let whole = bigint_div balance divisor;
          fraction = bigint_rem balance divisor
      in if fraction = 0 then bigint_toString whole
         else let fractionStr =
                    strip_trailing_zeros
                      (padStart (nat decimals) (CHR ''0'') (bigint_toString fraction))
              in bigint_toString whole @ ''.'' @ fractionStr)"

definition formatBalance :: "int \<Rightarrow> int \<Rightarrow> format_error + string" where
  "formatBalance balance decimals =
     (case formatBalance_divisor decimals of
        Inl e \<Rightarrow> Inl e
      | Inr divisor \<Rightarrow> Inr (formatBalance_with divisor balance decimals))"

text \<open>
  The formatter as the specification words it: exact division by \<open>10 ^ decimals\<close> on
  non-negative integers.
\<close>

definition format_spec :: "nat \<Rightarrow> nat \<Rightarrow> string" where
  "format_spec v d =
     (let whole = v div 10 ^ d;
          remainder = v mod 10 ^ d
      in if remainder = 0 then toString_radix 10 whole
         else toString_radix 10 whole @ ''.'' @
              strip_trailing_zeros (padStart d (CHR ''0'') (toString_radix 10 remainder)))"

section \<open>CRC-32\<close>

text \<open>
  The register \<open>crc\<close> is a 32-bit value throughout: every operator applied to it
  (\<open>^\<close>, \<open>&\<close>, \<open>>>>\<close>, \<open>>>\<close>, \<open>~\<close>, unary minus on 0 or 1) works on the 32-bit
  two's complement image of its operands. \<open>>>>\<close> is the logical shift, \<open>>>\<close> the
  arithmetic one, and a store into a \<open>Uint8Array\<close> keeps the low eight bits.
\<close>

definition crc_shift :: "32 word \<Rightarrow> 32 word" where
  "crc_shift crc = drop_bit 1 crc XOR (0xedb88320 AND - (crc AND 1))"

definition crc_byte :: "32 word \<Rightarrow> byte \<Rightarrow> 32 word" where
  "crc_byte crc b = (crc_shift ^^ 8) (crc XOR ucast b)"

definition calculateCRC32 :: "byte list \<Rightarrow> byte list" where
  "calculateCRC32 data =
     (let crc = NOT (foldl crc_byte 0xffffffff data)
      in [ucast (signed_drop_bit 24 crc AND 0xff),
          ucast (signed_drop_bit 16 crc AND 0xff),
          ucast (signed_drop_bit 8 crc AND 0xff),
          ucast (crc AND 0xff)])"

text \<open>
  The reference CRC-32 as the specification words it, on natural numbers: reflected
  (least significant bit first), polynomial \<open>0xEDB88320\<close>, register initialised to
  \<open>0xFFFFFFFF\<close>, complemented at the end, serialised most significant byte first.
\<close>

definition crc32_shift_spec :: "nat \<Rightarrow> nat" where
  "crc32_shift_spec r = (if odd r then (r div 2) XOR 0xEDB88320 else r div 2)"

definition crc32_byte_spec :: "nat \<Rightarrow> nat \<Rightarrow> nat" where
  "crc32_byte_spec r b = (crc32_shift_spec ^^ 8) (r XOR b)"

definition crc32_spec :: "nat list \<Rightarrow> nat" where
  "crc32_spec bs = 0xFFFFFFFF - foldl crc32_byte_spec 0xFFFFFFFF bs"

definition big_endian32 :: "nat \<Rightarrow> nat list" where
  "big_endian32 n = [n div 2 ^ 24 mod 256, n div 2 ^ 16 mod 256, n div 2 ^ 8 mod 256, n mod 256]"

section \<open>Hex encoding and the account identifier\<close>

definition toHex :: "byte list \<Rightarrow> string" where
  "toHex buffer = concat (map (\<lambda>x. slice_last 2 (''00'' @ toString_radix 16 (unat x))) buffer)"

text \<open>Two lowercase hex digits per byte, as the specification words the encoding.\<close>

definition hex_spec :: "nat list \<Rightarrow> string" where
  "hex_spec bs =
     concat (map (\<lambda>b. [''0123456789abcdef'' ! (b div 16), ''0123456789abcdef'' ! (b mod 16)]) bs)"

text \<open>
  A value caught by \<open>catch (error)\<close>: an \<open>Error\<close> object with its \<open>message\<close>, or any
  other value with its \<open>String(error)\<close> conversion.
\<close>

datatype thrown = ErrorObject string | OtherValue string

text \<open>
  \<open>target.set(source, offset)\<close> on a \<open>Uint8Array\<close> (here a RangeError when the source
  does not fit), and \<open>new Uint8Array(n)\<close>, which is zero-filled.
\<close>

definition Uint8Array_set :: "byte list \<Rightarrow> byte list \<Rightarrow> nat \<Rightarrow> thrown + byte list" where
  "Uint8Array_set target source offset =
     (if offset + length source \<le> length target
      then Inr (take offset target @ source @ drop (offset + length source) target)
      else Inl (ErrorObject ''offset is out of bounds''))"

definition Uint8Array_new :: "nat \<Rightarrow> byte list" where
  "Uint8Array_new n = replicate n 0"

text \<open>
  A \<open>Principal\<close> is read only through \<open>toUint8Array()\<close> (the parameter \<open>principal\<close>
  is written \<open>holder\<close> below: \<open>principal\<close> is a constant of HOL). The digest primitive
  belongs to the platform: \<open>generateAccountId\<close> takes it as a parameter, given the
  algorithm name and the data, and its promise either rejects or resolves to the digest
  bytes. The primitive the code runs on, \<open>crypto.subtle.digest\<close>, is defined further down.
\<close>

datatype Principal = Principal (toUint8Array: "byte list")

definition generateAccountId ::
  "(string \<Rightarrow> byte list \<Rightarrow> thrown + byte list) \<Rightarrow> Principal \<Rightarrow> byte list option \<Rightarrow> thrown + string" where
  "generateAccountId digest holder subaccount =
     (let padding = 0x0a # TextEncoder_encode ''account-id'';
          principalBytes = toUint8Array holder;
          sub = (case subaccount of None \<Rightarrow> Uint8Array_new 32 | Some s \<Rightarrow> s);
          data0 = Uint8Array_new (length padding + length principalBytes + length sub)
      in case Uint8Array_set data0 padding 0 of Inl e \<Rightarrow> Inl e | Inr data1 \<Rightarrow>
         case Uint8Array_set data1 principalBytes (length padding) of Inl e \<Rightarrow> Inl e | Inr data2 \<Rightarrow>
         case Uint8Array_set data2 sub (length padding + length principalBytes) of Inl e \<Rightarrow> Inl e | Inr data \<Rightarrow>
         case digest ''SHA-224'' data of Inl e \<Rightarrow> Inl e | Inr hash \<Rightarrow>
         (let crc32 = calculateCRC32 hash;
              result0 = Uint8Array_new (4 + length hash)
          in case Uint8Array_set result0 crc32 0 of Inl e \<Rightarrow> Inl e | Inr result1 \<Rightarrow>
             case Uint8Array_set result1 hash 4 of Inl e \<Rightarrow> Inl e | Inr result \<Rightarrow>
             Inr (toHex result)))"

text \<open>The account record as the specification words it.\<close>

definition account_record_spec :: "byte list \<Rightarrow> byte list option \<Rightarrow> byte list" where
  "account_record_spec holder sub =
     [0x0A] @ map of_char ''account-id'' @ holder @
     (case sub of None \<Rightarrow> replicate 32 0 | Some s \<Rightarrow> s)"

section \<open>The service: construction and network configuration\<close>

record TokenInfo =
  name :: string
  symbol :: string
  decimals :: nat

record 'agent TokenBalanceService =
  agent :: 'agent
  tokenInfoCache :: "string \<rightharpoonup> TokenInfo"

text \<open>
  \<open>import.meta.env.DFX_NETWORK || "ic"\<close>: the variable is unset (\<open>None\<close>) or a
  string, and the empty string is falsy.
\<close>

definition env_network :: "string option \<Rightarrow> string" where
  "env_network DFX_NETWORK =
     (case DFX_NETWORK of None \<Rightarrow> ''ic'' | Some s \<Rightarrow> if s = [] then ''ic'' else s)"

text \<open>
  The constructor has no \<open>throw\<close> and validates nothing; it returns the new service, and
  whether \<open>agent.fetchRootKey()\<close> was started (a rejection of that promise is only logged).
\<close>

definition constructor :: "string option \<Rightarrow> 'agent \<Rightarrow> 'agent TokenBalanceService \<times> bool" where
  "constructor DFX_NETWORK a =
     (let this = \<lparr>agent = a, tokenInfoCache = Map.empty\<rparr>;
          network = env_network DFX_NETWORK
      in (this, network = ''local''))"

record NetworkConfig =
  network :: string
  isLocal :: bool
  host :: string

text \<open>
  The error of \<open>getNetworkConfig\<close> carries the rejected value (its message, in Chinese,
  reads: invalid DFX_NETWORK value: ..., should be "local" or "ic").
\<close>

datatype config_error = InvalidNetwork string

definition getNetworkConfig :: "string option \<Rightarrow> config_error + NetworkConfig" where
  "getNetworkConfig DFX_NETWORK =
     (let n = env_network DFX_NETWORK
      in if n \<notin> set [''local'', ''ic''] then Inl (InvalidNetwork n)
         else let l = (n = ''local'');
                  h = (if l then ''http://localhost:4943'' else ''https://icp-api.io'')
              in Inr \<lparr>network = n, isLocal = l, host = h\<rparr>)"

section \<open>Balance query\<close>

text \<open>
  The ledger is the environment: \<open>createActor\<close> may throw for a canister id (\<open>Some\<close> of
  what it throws), and the \<open>icrc1_balance_of\<close> promise rejects or resolves to a bigint.
  The account passed to it is the owner with the subaccount as \<open>opt vec nat8\<close>: an empty
  or a one-element array. The calls of \<open>console\<close> only log and are left out, here and
  below.
\<close>

type_synonym icrc_account = "Principal \<times> byte list list"

record QueryResult =
  balance :: "int option"
  error :: "string option"

definition queryTokenBalance ::
  "(string \<Rightarrow> thrown option) \<Rightarrow> (string \<Rightarrow> icrc_account \<Rightarrow> thrown + int) \<Rightarrow>
   string \<Rightarrow> Principal \<Rightarrow> byte list option \<Rightarrow> QueryResult" where
  "queryTokenBalance createActor icrc1_balance_of tokenCanisterId holder subaccount =
     (let attempt =
            (case createActor tokenCanisterId of
               Some e \<Rightarrow> Inl e
             | None \<Rightarrow>
                 let account = (holder, case subaccount of Some s \<Rightarrow> [s] | None \<Rightarrow> [])
                 in icrc1_balance_of tokenCanisterId account)
      in case attempt of
           Inr b \<Rightarrow> \<lparr>balance = Some b, error = None\<rparr>
         | Inl e \<Rightarrow>
             let errorMessage = (case e of ErrorObject m \<Rightarrow> m | OtherValue s \<Rightarrow> s)
             in \<lparr>balance = None,
                 error = Some (''Failed to query '' @ tokenCanisterId @ '' balance: '' @ errorMessage)\<rparr>)"

section \<open>Token metadata lookup\<close>

text \<open>
  \<open>getTokenInfo\<close> is an async function with one \<open>await\<close>. It runs in two uninterrupted
  parts: from the call up to the \<open>await\<close> (\<open>getTokenInfo_start\<close>), and from the settling
  of \<open>Promise.all\<close> to the return (\<open>getTokenInfo_resume\<close>); other code may run in between.
  \<open>Promise.all\<close> rejects when one of the three queries does, and resolves to name, symbol
  and decimals otherwise (\<open>Number(decimals)\<close> leaves the decoded \<open>nat8\<close> as it is).
\<close>

type_synonym metadata_reply = "thrown + (string \<times> string \<times> nat)"

datatype getTokenInfo_step = Return TokenInfo | Await string

definition fallbackTokenInfo :: TokenInfo where
  "fallbackTokenInfo = \<lparr>name = ''Unknown Token'', symbol = [], decimals = 8\<rparr>"

definition getTokenInfo_start ::
  "(string \<Rightarrow> thrown option) \<Rightarrow> 'agent TokenBalanceService \<Rightarrow> string \<Rightarrow> getTokenInfo_step" where
  "getTokenInfo_start createActor this tokenCanisterId =
     (case tokenInfoCache this tokenCanisterId of
        Some info \<Rightarrow> Return info
      | None \<Rightarrow>
          (case createActor tokenCanisterId of
             Some e \<Rightarrow> Return fallbackTokenInfo
           | None \<Rightarrow> Await tokenCanisterId))"

definition getTokenInfo_resume ::
  "'agent TokenBalanceService \<Rightarrow> string \<Rightarrow> metadata_reply \<Rightarrow> 'agent TokenBalanceService \<times> TokenInfo" where
  "getTokenInfo_resume this tokenCanisterId settled =
     (case settled of
        Inr (n, s, d) \<Rightarrow>
          let tokenInfo = \<lparr>name = n, symbol = s, decimals = d\<rparr>
          in (this\<lparr>tokenInfoCache := (tokenInfoCache this)(tokenCanisterId \<mapsto> tokenInfo)\<rparr>, tokenInfo)
      | Inl e \<Rightarrow> (this, fallbackTokenInfo))"

text \<open>
  The event loop around the service. A call of \<open>getTokenInfo\<close> has a handle; the world
  records the service, one log entry per metadata fetch issued (the \<open>Promise.all\<close> of the
  three ledger queries), the calls suspended at their \<open>await\<close>, and what each finished call
  resolved to.
\<close>

record 'agent world =
  service :: "'agent TokenBalanceService"
  fetchLog :: "string list"
  suspended :: "nat \<rightharpoonup> string"
  resolved :: "nat \<rightharpoonup> TokenInfo"

datatype event = Invoke nat string | Settle nat metadata_reply

fun step :: "(string \<Rightarrow> thrown option) \<Rightarrow> 'agent world \<Rightarrow> event \<Rightarrow> 'agent world" where
  "step createActor w (Invoke c tokenCanisterId) =
     (case getTokenInfo_start createActor (service w) tokenCanisterId of
        Return info \<Rightarrow> w\<lparr>resolved := (resolved w)(c \<mapsto> info)\<rparr>
      | Await k \<Rightarrow> w\<lparr>fetchLog := fetchLog w @ [k], suspended := (suspended w)(c \<mapsto> k)\<rparr>)"
| "step createActor w (Settle c settled) =
     (case suspended w c of
        None \<Rightarrow> w
      | Some k \<Rightarrow>
          let (this, info) = getTokenInfo_resume (service w) k settled
          in w\<lparr>service := this,
               suspended := (suspended w)(c := None),
               resolved := (resolved w)(c \<mapsto> info)\<rparr>)"

definition run :: "(string \<Rightarrow> thrown option) \<Rightarrow> 'agent world \<Rightarrow> event list \<Rightarrow> 'agent world" where
  "run createActor w es = foldl (step createActor) w es"


text \<open>The world right after \<open>createTokenBalanceService(agent)\<close>: nothing cached, nothing running.\<close>

definition initial_world :: "string option \<Rightarrow> 'agent \<Rightarrow> 'agent world" where
  "initial_world DFX_NETWORK a =
     \<lparr>service = fst (constructor DFX_NETWORK a), fetchLog = [],
      suspended = Map.empty, resolved = Map.empty\<rparr>"

text \<open>
  \<open>crypto.subtle.digest(algorithm, data)\<close> of the Web Crypto API, the primitive the code
  calls. It offers four algorithms, SHA-1, SHA-256, SHA-384 and SHA-512, whose hash
  functions are parameters here. For every other algorithm name the promise rejects with
  a \<open>NotSupportedError\<close>, a \<open>DOMException\<close> and so an \<open>Error\<close> (the text of its message
  differs between engines).
\<close>

definition crypto_subtle_digest ::
  "(byte list \<Rightarrow> byte list) \<Rightarrow> (byte list \<Rightarrow> byte list) \<Rightarrow>
   (byte list \<Rightarrow> byte list) \<Rightarrow> (byte list \<Rightarrow> byte list) \<Rightarrow>
   string \<Rightarrow> byte list \<Rightarrow> thrown + byte list" where
  "crypto_subtle_digest sha1 sha256 sha384 sha512 algorithm data =
     (if algorithm = ''SHA-1'' then Inr (sha1 data)
      else if algorithm = ''SHA-256'' then Inr (sha256 data)
      else if algorithm = ''SHA-384'' then Inr (sha384 data)
      else if algorithm = ''SHA-512'' then Inr (sha512 data)
      else Inl (ErrorObject ''Unrecognized algorithm name''))"

section \<open>Evaluation and refinement lemmas\<close>

declare bit_length.simps [simp del]
declare toString_radix.simps [simp del]

lemma replicate_numeral: "replicate (numeral k) x = x # replicate (pred_numeral k) x"
  by (simp add: numeral_eq_Suc)

lemma upto_cases: "list_all P [0..<n] \<Longrightarrow> d < n \<Longrightarrow> P d"
  by (simp add: list_all_iff)

lemma funpow_8: "(f ^^ 8) x = f (f (f (f (f (f (f (f x)))))))"
  by (simp add: eval_nat_numeral)

lemmas format_eval = formatBalance_def formatBalance_divisor_def formatBalance_with_def
  bigint_div_def bigint_rem_def bigint_toString_def toString_radix.simps digit_char_def
  padStart_def strip_trailing_zeros_def Let_def replicate_numeral

lemmas pow10_eval = number_pow10_def round_binary64_def bit_length.simps Let_def

subsection \<open>The register of \<open>calculateCRC32\<close> read as a natural number\<close>

lemma crc_mask: "(0xedb88320 :: 32 word) AND - (c AND 1) = (if odd c then 0xedb88320 else 0)"
  by (simp add: and_one_eq mod_2_eq_odd)

lemma odd_unat: "odd (unat (c :: 32 word)) = odd c"
  using bit_unsigned_iff [of c 0, where ?'a = nat] by (simp add: bit_0)

lemma unat_crc_shift: "unat (crc_shift c) = crc32_shift_spec (unat c)"
  by (simp add: crc_shift_def crc32_shift_spec_def crc_mask unsigned_xor_eq unat_drop_bit_eq
      drop_bit_Suc odd_unat unat_div)

lemma unat_crc_shift_funpow: "unat ((crc_shift ^^ n) c) = (crc32_shift_spec ^^ n) (unat c)"
  by (induction n) (simp_all add: unat_crc_shift)

lemma unat_byte_less: "unat (b :: byte) < 256"
  using unsigned_less [of b, where ?'a = nat] by simp

lemma unat_ucast_byte: "unat (ucast (b :: byte) :: 32 word) = unat b"
  using unat_byte_less [of b] by (simp add: unsigned_ucast_eq take_bit_nat_eq_self_iff)

lemma unat_crc_byte: "unat (crc_byte c b) = crc32_byte_spec (unat c) (unat b)"
  by (simp add: crc_byte_def crc32_byte_spec_def unat_crc_shift_funpow unsigned_xor_eq
      unat_ucast_byte)

lemma unat_foldl_crc_byte:
  "unat (foldl crc_byte c bs) = foldl crc32_byte_spec (unat c) (map unat bs)"
  by (induction bs arbitrary: c) (simp_all add: unat_crc_byte)

lemma unat_NOT32: "unat (NOT (c :: 32 word)) = 0xFFFFFFFF - unat c"
proof -
  have "NOT c = - 1 - c"
    by (simp add: not_eq_complement)
  moreover have "unat (- 1 - c) = unat (- 1 :: 32 word) - unat c"
    by (rule unat_sub) simp
  ultimately show ?thesis
    by (simp add: unsigned_minus_1_eq_mask mask_eq_exp_minus_1)
qed

text \<open>
  The arithmetic shift of \<open>crc >> n\<close> fills with the sign bit, but \<open>& 0xff\<close> keeps only
  bits that the shift took from the register itself.
\<close>

lemma byte_of_shift:
  "n + 8 \<le> 32 \<Longrightarrow>
   (ucast (signed_drop_bit n crc AND 0xff) :: byte) = ucast (drop_bit n (crc :: 32 word))"
proof (rule bit_word_eqI)
  fix k
  assume n: "n + 8 \<le> 32" and k: "k < LENGTH(8)"
  have m: "(0xff :: 32 word) = mask 8"
    by (simp add: mask_eq_exp_minus_1)
  show "bit (ucast (signed_drop_bit n crc AND 0xff) :: byte) k
      = bit (ucast (drop_bit n crc) :: byte) k"
    using n k unfolding m by (auto simp: bit_simps)
qed

lemma unat_byte_of_shift:
  assumes "n + 8 \<le> 32"
  shows "unat (ucast (signed_drop_bit n crc AND 0xff) :: byte)
       = unat (crc :: 32 word) div 2 ^ n mod 256"
proof -
  have "unat (ucast (signed_drop_bit n crc AND 0xff) :: byte)
      = unat (ucast (drop_bit n crc) :: byte)"
    by (simp only: byte_of_shift [OF assms])
  also have "\<dots> = take_bit 8 (unat (drop_bit n crc))"
    by (simp only: unsigned_ucast_eq) simp
  also have "\<dots> = take_bit 8 (drop_bit n (unat crc))"
    by (simp only: unat_drop_bit_eq)
  also have "\<dots> = unat crc div 2 ^ n mod 256"
    by (simp add: drop_bit_eq_div take_bit_eq_mod)
  finally show ?thesis .
qed

lemma unat_low_byte: "unat (ucast (crc AND 0xff) :: byte) = unat (crc :: 32 word) mod 256"
  using unat_byte_of_shift [of 0 crc] by (simp only: signed_drop_bit_0) simp

lemma calculateCRC32_refines:
  "map unat (calculateCRC32 bs) = big_endian32 (crc32_spec (map unat bs))"
proof -
  define crc where "crc = NOT (foldl crc_byte 0xffffffff bs)"
  have u: "unat crc = crc32_spec (map unat bs)"
    by (simp only: crc_def unat_NOT32 unat_foldl_crc_byte crc32_spec_def) simp
  have "map unat (calculateCRC32 bs) =
        [unat (ucast (signed_drop_bit 24 crc AND 0xff) :: byte),
         unat (ucast (signed_drop_bit 16 crc AND 0xff) :: byte),
         unat (ucast (signed_drop_bit 8 crc AND 0xff) :: byte),
         unat (ucast (crc AND 0xff) :: byte)]"
    by (simp only: calculateCRC32_def Let_def crc_def list.map)
  also have "\<dots> = [unat crc div 2 ^ 24 mod 256, unat crc div 2 ^ 16 mod 256,
                     unat crc div 2 ^ 8 mod 256, unat crc mod 256]"
  proof -
    have b3: "unat (ucast (signed_drop_bit 24 crc AND 0xff) :: byte) = unat crc div 2 ^ 24 mod 256"
      by (rule unat_byte_of_shift) simp
    have b2: "unat (ucast (signed_drop_bit 16 crc AND 0xff) :: byte) = unat crc div 2 ^ 16 mod 256"
      by (rule unat_byte_of_shift) simp
    have b1: "unat (ucast (signed_drop_bit 8 crc AND 0xff) :: byte) = unat crc div 2 ^ 8 mod 256"
      by (rule unat_byte_of_shift) simp
    show ?thesis
      by (simp only: b3 b2 b1) (simp only: unat_low_byte)
  qed
  finally show ?thesis
    by (simp only: u big_endian32_def)
qed

lemma length_calculateCRC32: "length (calculateCRC32 bs) = 4"
  by (simp add: calculateCRC32_def Let_def)

subsection \<open>Hex digits\<close>

lemma digit_char_hex: "d < 16 \<Longrightarrow> digit_char d = ''0123456789abcdef'' ! d"
  by (erule upto_cases [rotated]) (simp add: digit_char_def upt_rec)

lemma toString_radix_16_byte:
  assumes "x < 256"
  shows "slice_last 2 (''00'' @ toString_radix 16 x)
       = [''0123456789abcdef'' ! (x div 16), ''0123456789abcdef'' ! (x mod 16)]"
proof (cases "x < 16")
  case True
  then have "toString_radix 16 x = [digit_char x]"
    by (simp add: toString_radix.simps)
  with True show ?thesis
    by (simp add: slice_last_def digit_char_hex)
next
  case False
  with assms have d: "x div 16 < 16"
    by simp
  then have "toString_radix 16 (x div 16) = [digit_char (x div 16)]"
    by (simp add: toString_radix.simps)
  with False have "toString_radix 16 x = [digit_char (x div 16), digit_char (x mod 16)]"
    by (subst toString_radix.simps) simp
  with d show ?thesis
    by (simp add: slice_last_def digit_char_hex)
qed

lemma toHex_refines: "toHex bs = hex_spec (map unat bs)"
proof -
  have "\<And>b :: byte. slice_last 2 (''00'' @ toString_radix 16 (unat b)) =
      [''0123456789abcdef'' ! (unat b div 16), ''0123456789abcdef'' ! (unat b mod 16)]"
    by (rule toString_radix_16_byte) (rule unat_byte_less)
  then show ?thesis
    by (simp only: toHex_def hex_spec_def map_map comp_def)
qed

lemma length_hex_spec: "length (hex_spec ns) = 2 * length ns"
  by (induction ns) (simp_all add: hex_spec_def)

lemma hex_digit_mem: "d < 16 \<Longrightarrow> ''0123456789abcdef'' ! d \<in> set ''0123456789abcdef''"
  by (rule nth_mem) simp

lemma set_Cons2_subset: "x \<in> S \<Longrightarrow> y \<in> S \<Longrightarrow> set zs \<subseteq> S \<Longrightarrow> set (x # y # zs) \<subseteq> S"
  by simp

lemma set_hex_spec:
  "\<forall>n \<in> set ns. n < 256 \<Longrightarrow> set (hex_spec ns) \<subseteq> set ''0123456789abcdef''"
proof (induction ns)
  case Nil
  then show ?case
    by (simp add: hex_spec_def)
next
  case (Cons n ns)
  from Cons.prems have "n < 256"
    by simp
  then have "n div 16 < 16"
    by simp
  then have hi: "''0123456789abcdef'' ! (n div 16) \<in> set ''0123456789abcdef''"
    by (rule hex_digit_mem)
  have "n mod 16 < 16"
    by simp
  then have lo: "''0123456789abcdef'' ! (n mod 16) \<in> set ''0123456789abcdef''"
    by (rule hex_digit_mem)
  have eq: "hex_spec (n # ns) =
      ''0123456789abcdef'' ! (n div 16) # ''0123456789abcdef'' ! (n mod 16) # hex_spec ns"
    by (simp add: hex_spec_def)
  have ih: "set (hex_spec ns) \<subseteq> set ''0123456789abcdef''"
    using Cons by simp
  show ?case
    unfolding eq by (rule set_Cons2_subset [OF hi lo ih])
qed

lemma unat_bytes_bound: "\<forall>n \<in> set (map unat (bs :: byte list)). n < 256"
  by (simp add: unat_byte_less)

subsection \<open>The byte arrays of \<open>generateAccountId\<close>\<close>

text \<open>
  Filling the fresh arrays with \<open>set\<close> at the running offsets never goes out of bounds and
  amounts to concatenation, so the function is: digest of the record, then hex of
  checksum and digest.
\<close>

lemma generateAccountId_unfolded:
  "generateAccountId digest holder subaccount =
     (case digest ''SHA-224'' (account_record_spec (toUint8Array holder) subaccount) of
        Inl e \<Rightarrow> Inl e
      | Inr h \<Rightarrow> Inr (toHex (calculateCRC32 h @ h)))"
  by (simp add: generateAccountId_def Uint8Array_set_def Uint8Array_new_def account_record_spec_def
      TextEncoder_encode_def length_calculateCRC32 Let_def split: sum.splits option.splits)

text \<open>
  What the function computes from a digest: for a primitive that resolves to 28 bytes
  \<open>h\<close> on the account record, the result is the hex encoding of the CRC-32 of \<open>h\<close>
  followed by \<open>h\<close>; 64 characters of \<open>0-9a-f\<close>.
\<close>

lemma generateAccountId_layout:
  assumes "digest ''SHA-224'' (account_record_spec (toUint8Array holder) subaccount) = Inr h"
    and "length h = 28"
  shows "generateAccountId digest holder subaccount =
           Inr (hex_spec (big_endian32 (crc32_spec (map unat h)) @ map unat h))
       \<and> length (hex_spec (big_endian32 (crc32_spec (map unat h)) @ map unat h)) = 64
       \<and> set (hex_spec (big_endian32 (crc32_spec (map unat h)) @ map unat h))
           \<subseteq> set ''0123456789abcdef''"
proof -
  have eq: "big_endian32 (crc32_spec (map unat h)) @ map unat h = map unat (calculateCRC32 h @ h)"
    by (simp only: map_append calculateCRC32_refines)
  have 1: "generateAccountId digest holder subaccount
         = Inr (hex_spec (map unat (calculateCRC32 h @ h)))"
    by (simp add: generateAccountId_unfolded assms(1) toHex_refines)
  have 2: "length (hex_spec (map unat (calculateCRC32 h @ h))) = 64"
    by (simp add: length_hex_spec length_calculateCRC32 assms(2))
  have 3: "set (hex_spec (map unat (calculateCRC32 h @ h))) \<subseteq> set ''0123456789abcdef''"
    by (rule set_hex_spec) (rule unat_bytes_bound)
  show ?thesis
    unfolding eq using 1 2 3 by blast
qed

subsection \<open>Powers of ten as Numbers\<close>

lemma number_pow10_8: "number_pow10 8 = Some 100000000"
  by (simp add: pow10_eval)

lemma number_pow10_24: "number_pow10 24 = Some 999999999999999983222784"
  by (simp add: pow10_eval)

lemma number_pow10_25: "number_pow10 25 = Some 10000000000000000905969664"
  by (simp add: pow10_eval)

subsection \<open>The rounded power stays finite up to 255 decimals and is exact up to 22\<close>

text \<open>
  Rounding to 53 significant bits at most doubles a number, so \<open>10 ** d\<close> is finite for
  every \<open>d\<close> up to 255 and \<open>formatBalance\<close> throws nothing there. Up to \<open>d = 22\<close> the power
  of ten fits the significand and the divisor is exact.
\<close>

lemma bit_length_upper: "n < 2 ^ bit_length n"
proof (induction n rule: bit_length.induct)
  case (1 n)
  show ?case
  proof (cases "n = 0")
    case True
    then show ?thesis by (simp add: bit_length.simps)
  next
    case False
    with 1 have "n div 2 < 2 ^ bit_length (n div 2)" by simp
    then have "n < 2 * 2 ^ bit_length (n div 2)" by linarith
    with False show ?thesis by (subst bit_length.simps) simp
  qed
qed

lemma bit_length_lower: "n \<noteq> 0 \<Longrightarrow> 2 ^ (bit_length n - 1) \<le> n"
proof (induction n rule: bit_length.induct)
  case (1 n)
  show ?case
  proof (cases "n div 2 = 0")
    case True
    with 1(2) have "bit_length n = 1"
      by (subst bit_length.simps) (simp add: bit_length.simps)
    with 1(2) show ?thesis by simp
  next
    case False
    with 1 have ih: "2 ^ (bit_length (n div 2) - 1) \<le> n div 2" by simp
    from False have "bit_length (n div 2) \<noteq> 0" by (subst bit_length.simps) simp
    then have "bit_length n - 1 = Suc (bit_length (n div 2) - 1)"
      using 1(2) by (subst bit_length.simps) simp
    with ih show ?thesis by simp
  qed
qed

lemma round_binary64_bounds:
  assumes "n \<noteq> 0"
  shows "0 < round_binary64 n \<and> round_binary64 n \<le> 2 * n"
proof (cases "bit_length n \<le> 53")
  case True
  with assms show ?thesis by (simp add: round_binary64_def)
next
  case False
  define e where "e = bit_length n - 53"
  define q where "q = n div 2 ^ e"
  from False have "e \<le> bit_length n - 1" by (simp add: e_def)
  then have "(2::nat) ^ e \<le> 2 ^ (bit_length n - 1)" by (rule power_increasing) simp
  also have "\<dots> \<le> n" using assms by (rule bit_length_lower)
  finally have "2 ^ e \<le> n" .
  then have q1: "1 \<le> q" unfolding q_def by (simp add: div_greater_zero_iff Suc_le_eq)
  have a: "q * 2 ^ e \<le> n" unfolding q_def by simp
  have "1 * 2 ^ e \<le> q * 2 ^ e" using q1 by (intro mult_le_mono1)
  then have b: "2 ^ e \<le> q * 2 ^ e" by simp
  have "(q + 1) * 2 ^ e = q * 2 ^ e + 2 ^ e" by (simp add: algebra_simps)
  with a b have up: "(q + 1) * 2 ^ e \<le> 2 * n" by linarith
  have r: "round_binary64 n = (q + 1) * 2 ^ e \<or> round_binary64 n = q * 2 ^ e"
    using False by (simp add: round_binary64_def Let_def e_def q_def)
  have "0 < q * 2 ^ e" using q1 by simp
  with r up show ?thesis by auto
qed

lemma number_pow10_finite: "d \<le> 255 \<Longrightarrow> \<exists>p. number_pow10 d = Some p \<and> 0 < p"
proof -
  assume d: "d \<le> 255"
  have b: "0 < round_binary64 (10 ^ d) \<and> round_binary64 (10 ^ d) \<le> 2 * 10 ^ d"
    by (rule round_binary64_bounds) simp
  have "(10::nat) ^ d \<le> 10 ^ 255" using d by (intro power_increasing) simp_all
  then have "2 * (10::nat) ^ d \<le> 2 * 10 ^ 255" by (intro mult_le_mono2)
  also have "\<dots> < (2::nat) ^ 1024" by simp
  finally have "2 * (10::nat) ^ d < 2 ^ 1024" .
  with b have "round_binary64 (10 ^ d) < 2 ^ 1024" by linarith
  with b show ?thesis by (simp add: number_pow10_def Let_def)
qed

lemma formatBalance_total:
  "0 \<le> d \<Longrightarrow> d \<le> 255 \<Longrightarrow> \<exists>s. formatBalance v d = Inr s"
proof -
  assume "0 \<le> d" "d \<le> 255"
  then have "nat d \<le> 255" by simp
  then obtain p where "number_pow10 (nat d) = Some p" using number_pow10_finite by blast
  with \<open>0 \<le> d\<close> show ?thesis by (simp add: formatBalance_def formatBalance_divisor_def)
qed

lemma number_pow10_exact: "d \<le> 22 \<Longrightarrow> number_pow10 d = Some (10 ^ d)"
  using upto_cases [of "\<lambda>k. number_pow10 k = Some (10 ^ k)" 23 d]
  by (simp add: pow10_eval upt_rec)

subsection \<open>The shape of a formatted balance\<close>

text \<open>
  Whatever positive divisor is used, a non-negative balance is shown as the digits of
  the quotient, followed, when the remainder is not zero, by one point and a non-empty
  run of digits that does not end in \<open>0\<close>.
\<close>

lemma digit_char_decimal: "d < 10 \<Longrightarrow> digit_char d \<in> set ''0123456789''"
  by (erule upto_cases [rotated]) (simp add: digit_char_def upt_rec)

lemma digit_char_nonzero: "0 < d \<Longrightarrow> d < 10 \<Longrightarrow> digit_char d \<noteq> CHR ''0''"
  using upto_cases [of "\<lambda>k. 0 < k \<longrightarrow> digit_char k \<noteq> CHR ''0''" 10 d]
  by (simp add: digit_char_def upt_rec)

lemma digit_char_one: "d < 10 \<Longrightarrow> digit_char d = CHR ''1'' \<Longrightarrow> d = 1"
  using upto_cases [of "\<lambda>k. digit_char k = CHR ''1'' \<longrightarrow> k = 1" 10 d]
  by (simp add: digit_char_def upt_rec)

lemma set_toString_10: "set (toString_radix 10 n) \<subseteq> set ''0123456789''"
proof (induction "10::nat" n rule: toString_radix.induct)
  case (1 n)
  show ?case
  proof (cases "n < 10")
    case True
    then have "toString_radix 10 n = [digit_char n]" by (simp add: toString_radix.simps)
    with True digit_char_decimal [of n] show ?thesis by (simp del: set_simps list.set add: list.set(2) list.set(1))
  next
    case False
    then have eq: "toString_radix 10 n = toString_radix 10 (n div 10) @ [digit_char (n mod 10)]"
      by (subst toString_radix.simps) simp
    have "digit_char (n mod 10) \<in> set ''0123456789''" by (rule digit_char_decimal) simp
    moreover have "set (toString_radix 10 (n div 10)) \<subseteq> set ''0123456789''"
      using 1 False by simp
    ultimately show ?thesis unfolding eq by (simp del: set_simps list.set add: list.set(2) list.set(1))
  qed
qed

lemma toString_10_has_nonzero: "n \<noteq> 0 \<Longrightarrow> \<exists>c \<in> set (toString_radix 10 n). c \<noteq> CHR ''0''"
proof (induction "10::nat" n rule: toString_radix.induct)
  case (1 n)
  show ?case
  proof (cases "n < 10")
    case True
    then have "toString_radix 10 n = [digit_char n]" by (simp add: toString_radix.simps)
    moreover have "digit_char n \<noteq> CHR ''0''" using True 1(2) by (intro digit_char_nonzero) simp_all
    ultimately show ?thesis by simp
  next
    case False
    then have eq: "toString_radix 10 n = toString_radix 10 (n div 10) @ [digit_char (n mod 10)]"
      by (subst toString_radix.simps) simp
    from False have "n div 10 \<noteq> 0" by simp
    with 1 False have "\<exists>c \<in> set (toString_radix 10 (n div 10)). c \<noteq> CHR ''0''" by simp
    then show ?thesis unfolding eq by auto
  qed
qed

lemma strip_trailing_zeros_shape:
  assumes "\<exists>c \<in> set s. c \<noteq> CHR ''0''"
  shows "strip_trailing_zeros s \<noteq> [] \<and> last (strip_trailing_zeros s) \<noteq> CHR ''0''
       \<and> set (strip_trailing_zeros s) \<subseteq> set s"
proof -
  define t where "t = dropWhile (\<lambda>c. c = CHR ''0'') (rev s)"
  from assms have ne: "t \<noteq> []" unfolding t_def by (auto simp: dropWhile_eq_Nil_conv)
  then have "hd t \<noteq> CHR ''0''" unfolding t_def using hd_dropWhile [of "\<lambda>c. c = CHR ''0''" "rev s"] by simp
  moreover have "set t \<subseteq> set s" unfolding t_def using set_dropWhileD [of _ "\<lambda>c. c = CHR ''0''" "rev s"] by auto
  ultimately show ?thesis using ne by (simp add: strip_trailing_zeros_def t_def [symmetric] last_rev)
qed

lemma formatBalance_with_shape:
  assumes "0 \<le> v" and "0 < D"
  shows "(v mod D = 0 \<and> formatBalance_with D v d = toString_radix 10 (nat (v div D)))
       \<or> (\<exists>f. formatBalance_with D v d = toString_radix 10 (nat (v div D)) @ ''.'' @ f
              \<and> f \<noteq> [] \<and> last f \<noteq> CHR ''0'' \<and> set f \<subseteq> set ''0123456789'')"
proof -
  have dv: "bigint_div v D = v div D" using assms by (cases "v = 0") (simp_all add: bigint_div_def)
  have rm: "bigint_rem v D = v mod D" using assms by (cases "v = 0") (simp_all add: bigint_rem_def)
  have "0 \<le> v div D" using assms by (simp add: pos_imp_zdiv_nonneg_iff)
  then have w: "bigint_toString (v div D) = toString_radix 10 (nat (v div D))"
    by (simp add: bigint_toString_def)
  show ?thesis
  proof (cases "v mod D = 0")
    case True
    then show ?thesis by (simp add: formatBalance_with_def dv rm w)
  next
    case False
    define p where "p = padStart (nat d) (CHR ''0'') (bigint_toString (v mod D))"
    have nn: "0 \<le> v mod D" using assms by simp
    then have fs: "bigint_toString (v mod D) = toString_radix 10 (nat (v mod D))"
      by (simp add: bigint_toString_def)
    from False nn have "nat (v mod D) \<noteq> 0" by simp
    then have "\<exists>c \<in> set (toString_radix 10 (nat (v mod D))). c \<noteq> CHR ''0''"
      by (rule toString_10_has_nonzero)
    then have ex: "\<exists>c \<in> set p. c \<noteq> CHR ''0''" unfolding p_def fs padStart_def by auto
    have "set p \<subseteq> insert (CHR ''0'') (set (toString_radix 10 (nat (v mod D))))"
      unfolding p_def fs padStart_def by auto
    moreover have "CHR ''0'' \<in> set ''0123456789''" by simp
    ultimately have sp: "set p \<subseteq> set ''0123456789''" using set_toString_10 [of "nat (v mod D)"] by blast
    from strip_trailing_zeros_shape [OF ex] sp
    have "strip_trailing_zeros p \<noteq> [] \<and> last (strip_trailing_zeros p) \<noteq> CHR ''0''
       \<and> set (strip_trailing_zeros p) \<subseteq> set ''0123456789''" by blast
    moreover have "formatBalance_with D v d = toString_radix 10 (nat (v div D)) @ ''.'' @ strip_trailing_zeros p"
      using False by (simp add: formatBalance_with_def dv rm w p_def Let_def)
    ultimately show ?thesis by blast
  qed
qed

lemma point_not_digit: "CHR ''.'' \<notin> set ''0123456789''"
  by simp

lemma formatBalance_shape:
  assumes "0 \<le> v" and "0 \<le> d" and "d \<le> 255"
  shows "\<exists>s. formatBalance v d = Inr s \<and> count_list s (CHR ''.'') \<le> 1
           \<and> (CHR ''.'' \<in> set s \<longrightarrow>
                (\<exists>w f. s = w @ ''.'' @ f \<and> CHR ''.'' \<notin> set w \<and> CHR ''.'' \<notin> set f
                       \<and> f \<noteq> [] \<and> last f \<noteq> CHR ''0''))"
proof -
  from assms have "nat d \<le> 255" by simp
  then obtain p where p: "number_pow10 (nat d) = Some p" "0 < p"
    using number_pow10_finite by blast
  with assms have fb: "formatBalance v d = Inr (formatBalance_with (int p) v d)"
    by (simp add: formatBalance_def formatBalance_divisor_def)
  define w where "w = toString_radix 10 (nat (v div int p))"
  have nw: "CHR ''.'' \<notin> set w"
    unfolding w_def using set_toString_10 [of "nat (v div int p)"] point_not_digit by blast
  then have cw: "count_list w (CHR ''.'') = 0" by (simp add: count_list_0_iff)
  from p assms formatBalance_with_shape [of v "int p" d]
  consider (whole) "formatBalance_with (int p) v d = w"
    | (frac) f where "formatBalance_with (int p) v d = w @ ''.'' @ f" "f \<noteq> []"
        "last f \<noteq> CHR ''0''" "set f \<subseteq> set ''0123456789''"
    unfolding w_def by auto
  then show ?thesis
  proof cases
    case whole
    with fb nw cw show ?thesis by simp
  next
    case frac
    from frac(4) point_not_digit have nf: "CHR ''.'' \<notin> set f" by blast
    then have "count_list f (CHR ''.'') = 0" by (simp add: count_list_0_iff)
    with cw frac(1) have "count_list (formatBalance_with (int p) v d) (CHR ''.'') \<le> 1" by simp
    with fb frac nw nf show ?thesis by blast
  qed
qed

text \<open>With the exact divisor the code is the formatter of the specification.\<close>

lemma formatBalance_with_exact:
  assumes "0 \<le> v"
  shows "formatBalance_with (10 ^ d) v (int d) = format_spec (nat v) d"
proof -
  have D: "(0::int) < 10 ^ d" by simp
  have dv: "bigint_div v (10 ^ d) = v div 10 ^ d"
    using assms by (cases "v = 0") (simp_all add: bigint_div_def)
  have rm: "bigint_rem v (10 ^ d) = v mod 10 ^ d"
    using assms by (cases "v = 0") (simp_all add: bigint_rem_def)
  have q: "0 \<le> v div 10 ^ d" using assms by (simp add: pos_imp_zdiv_nonneg_iff)
  have r: "0 \<le> v mod 10 ^ d" by simp
  have nq: "nat (v div 10 ^ d) = nat v div 10 ^ d"
    using assms by (simp add: nat_div_distrib nat_power_eq)
  have nr: "nat (v mod 10 ^ d) = nat v mod 10 ^ d"
    using assms by (simp add: nat_mod_distrib nat_power_eq)
  have z: "(v mod 10 ^ d = 0) = (nat v mod 10 ^ d = 0)"
    using r nr by (metis nat_0_iff order_antisym)
  have tq: "bigint_toString (v div 10 ^ d) = toString_radix 10 (nat v div 10 ^ d)"
    using q by (simp add: bigint_toString_def nq)
  have "\<not> v mod 10 ^ d < 0" using r by linarith
  then have tr: "bigint_toString (v mod 10 ^ d) = toString_radix 10 (nat v mod 10 ^ d)"
    by (simp only: bigint_toString_def if_False nr)
  show ?thesis
    by (simp add: formatBalance_with_def format_spec_def dv rm tq tr z Let_def)
qed

lemma formatBalance_exact_upto_22:
  assumes "0 \<le> v" and "d \<le> 22"
  shows "formatBalance v (int d) = Inr (format_spec (nat v) d)"
  using assms by (simp add: formatBalance_def formatBalance_divisor_def number_pow10_exact
      formatBalance_with_exact)

lemma format_spec_multiple:
  "format_spec (v * 10 ^ d) d = toString_radix 10 v"
  by (simp add: format_spec_def)

subsection \<open>Only the exact divisor shows \<open>10 ^ d\<close> base units as \<open>1\<close>\<close>

text \<open>
  The model of \<open>10 ** decimals\<close> takes the correctly rounded power; an engine may round
  differently. That does not matter for 24 decimals: no binary64 value is \<open>10 ^ 24\<close>, and
  with any other divisor a balance of \<open>10 ^ 24\<close> is not shown as \<open>1\<close>.
\<close>

lemma toString_10_eq_1: "toString_radix 10 n = ''1'' \<Longrightarrow> n = 1"
proof (cases "n < 10")
  case True
  assume a: "toString_radix 10 n = ''1''"
  from True have "toString_radix 10 n = [digit_char n]" by (simp add: toString_radix.simps)
  with a have "digit_char n = CHR ''1''" by simp
  with True show ?thesis by (rule digit_char_one)
next
  case False
  assume a: "toString_radix 10 n = ''1''"
  from False have "toString_radix 10 n = toString_radix 10 (n div 10) @ [digit_char (n mod 10)]"
    by (subst toString_radix.simps) simp
  with a have "toString_radix 10 (n div 10) = []" by simp
  moreover have "toString_radix 10 (n div 10) \<noteq> []"
    by (subst toString_radix.simps) simp
  ultimately show ?thesis by simp
qed

lemma formatBalance_with_needs_exact_divisor:
  assumes "0 < D" and "formatBalance_with D (10 ^ d) (int d) = ''1''"
  shows "D = 10 ^ d"
proof -
  have v: "(0::int) \<le> 10 ^ d" by simp
  have "\<not> (\<exists>f. formatBalance_with D (10 ^ d) (int d)
                = toString_radix 10 (nat (10 ^ d div D)) @ ''.'' @ f)"
  proof
    assume "\<exists>f. formatBalance_with D (10 ^ d) (int d)
                = toString_radix 10 (nat (10 ^ d div D)) @ ''.'' @ f"
    then obtain f where "''1'' = toString_radix 10 (nat (10 ^ d div D)) @ ''.'' @ f"
      using assms(2) by auto
    then have "CHR ''.'' \<in> set ''1''"
      by (simp only: set_append) simp
    then show False by simp
  qed
  with formatBalance_with_shape [OF v assms(1), of "int d"] assms(2)
  have "((10::int) ^ d) mod D = 0 \<and> toString_radix 10 (nat ((10 ^ d) div D)) = ''1''"
    by metis
  then have m: "((10::int) ^ d) mod D = 0" and "nat ((10 ^ d) div D) = 1"
    using toString_10_eq_1 by blast+
  then have "(10 ^ d) div D = 1" by simp
  with m show ?thesis
    by (metis mult.right_neutral mult_div_mod_eq add.right_neutral)
qed

lemma formatBalance_24_any_engine:
  assumes "0 < D" and "is_binary64 (nat D)"
  shows "formatBalance_with D (10 ^ 24) 24 \<noteq> ''1''"
proof
  assume "formatBalance_with D (10 ^ 24) 24 = ''1''"
  with assms(1) formatBalance_with_needs_exact_divisor [of D 24] have "D = 10 ^ 24" by simp
  with assms(2) have "is_binary64 (10 ^ 24)" by (simp add: nat_power_eq)
  then show False by (simp add: is_binary64_def round_binary64_def bit_length.simps Let_def)
qed

section \<open>Balance formatting and the floating-point divisor\<close>

text \<open>
  C1. The specification wants the whole part and the remainder from exact division by
  \<open>10 ^ d\<close>, with no floating point anywhere. The code computes the divisor as
  \<open>BigInt(10 ** decimals)\<close>, and \<open>10 ** decimals\<close> is a Number. \<open>10 ^ 24\<close> is not a binary64
  value, so the divisor for 24 decimals is \<open>999999999999999983222784\<close>, and a balance of
  exactly \<open>10 ^ 24\<close> base units, which is 1 token, is shown with a fraction where exact
  division shows \<open>1\<close>. (The code throws nothing for 0 to 255 decimals,
  \<open>formatBalance_total\<close>, and agrees with exact division up to 22 decimals,
  \<open>formatBalance_exact_upto_22\<close>.)
\<close>

theorem formatBalance_divisor_is_rounded:
  "\<not> is_binary64 (10 ^ 24)
   \<and> formatBalance_divisor 24 = Inr 999999999999999983222784
   \<and> formatBalance (10 ^ 24) 24 = Inr ''1.000000000000000016777216''
   \<and> format_spec (10 ^ 24) 24 = ''1''"
proof -
  have a: "\<not> is_binary64 (10 ^ 24)"
    by (simp add: is_binary64_def round_binary64_def bit_length.simps Let_def)
  have b: "formatBalance_divisor 24 = Inr 999999999999999983222784"
    by (simp add: formatBalance_divisor_def number_pow10_24)
  have c: "formatBalance (10 ^ 24) 24 = Inr ''1.000000000000000016777216''"
    by (simp add: format_eval number_pow10_24)
  have d: "format_spec (10 ^ 24) 24 = ''1''"
    by (simp add: format_spec_def toString_radix.simps digit_char_def)
  show ?thesis
    by (intro conjI) (rule a, rule b, rule c, rule d)
qed

text \<open>
  C4. An exact multiple of \<open>10 ^ d\<close> must be shown without a decimal point. With 25
  decimals the divisor is \<open>10000000000000000905969664\<close>, larger than \<open>10 ^ 25\<close>, and the
  balance \<open>1 * 10 ^ 25\<close> is shown as \<open>0.1\<close>. The four examples with 8 decimals come out as
  the specification lists them. (The rest of the claim holds for every non-negative
  balance and 0 to 255 decimals: at most one point, and after it a non-empty text that
  does not end in \<open>0\<close>, \<open>formatBalance_shape\<close>.)
\<close>

theorem formatBalance_exact_multiple_with_point:
  "formatBalance (1 * 10 ^ 25) 25 = Inr ''0.1''
   \<and> formatBalance 123456789 8 = Inr ''1.23456789''
   \<and> formatBalance 100000000 8 = Inr ''1''
   \<and> formatBalance 100500000 8 = Inr ''1.005''
   \<and> formatBalance 0 8 = Inr ''0''"
proof -
  have a: "formatBalance (1 * 10 ^ 25) 25 = Inr ''0.1''"
    by (simp add: format_eval number_pow10_25)
  have b: "formatBalance 123456789 8 = Inr ''1.23456789''"
    by (simp add: format_eval number_pow10_8)
  have c: "formatBalance 100000000 8 = Inr ''1''"
    by (simp add: format_eval number_pow10_8)
  have d: "formatBalance 100500000 8 = Inr ''1.005''"
    by (simp add: format_eval number_pow10_8)
  have e: "formatBalance 0 8 = Inr ''0''"
    by (simp add: format_eval number_pow10_8)
  show ?thesis
    by (intro conjI) (rule a, rule b, rule c, rule d, rule e)
qed

section \<open>The checksum is CRC-32\<close>

text \<open>
  C3. For every byte sequence \<open>b\<close>, \<open>calculateCRC32 b\<close> has four bytes, and they are the
  big-endian serialisation of the reference CRC-32 of \<open>b\<close> (reflected, polynomial
  \<open>0xEDB88320\<close>, initial register \<open>0xFFFFFFFF\<close>, final complement). On the ASCII bytes of
  \<open>123456789\<close> it yields \<open>CB F4 39 26\<close>.
\<close>

theorem calculateCRC32_is_CRC32:
  "length (calculateCRC32 b) = 4
   \<and> map unat (calculateCRC32 b) = big_endian32 (crc32_spec (map unat b))
   \<and> calculateCRC32 (TextEncoder_encode ''123456789'') = [0xCB, 0xF4, 0x39, 0x26]"
proof -
  have v: "calculateCRC32 (TextEncoder_encode ''123456789'') = [0xCB, 0xF4, 0x39, 0x26]"
    by (simp add: calculateCRC32_def crc_byte_def funpow_8 crc_shift_def TextEncoder_encode_def)
  show ?thesis
    by (intro conjI) (rule length_calculateCRC32, rule calculateCRC32_refines, rule v)
qed

section \<open>The account identifier\<close>

text \<open>
  C2. The specification wants \<open>generateAccountId\<close> to return, for every holder and
  subaccount, the 64 hex characters of checksum and SHA-224 digest. The code asks
  \<open>crypto.subtle.digest\<close> for \<open>SHA-224\<close>, an algorithm the Web Crypto API does not offer:
  the promise rejects, the \<open>catch\<close> block rethrows, and no string is returned, for any
  holder and any subaccount. (With a primitive that does resolve, the bytes are laid
  out as the specification says, \<open>generateAccountId_layout\<close>.)
\<close>

theorem generateAccountId_rejects_on_web_crypto:
  "generateAccountId (crypto_subtle_digest sha1 sha256 sha384 sha512) holder subaccount
     = Inl (ErrorObject ''Unrecognized algorithm name'')
   \<and> generateAccountId (crypto_subtle_digest sha1 sha256 sha384 sha512) (Principal [4]) None
     = Inl (ErrorObject ''Unrecognized algorithm name'')"
  by (simp add: generateAccountId_unfolded crypto_subtle_digest_def)


section \<open>Balance query: every failure becomes an error result\<close>

text \<open>
  C8. \<open>queryTokenBalance\<close> has its whole body inside \<open>try\<close>, so it always returns a result
  object. When the ledger query fails (creating the actor throws, or the balance call
  rejects), the result has no balance and its \<open>error\<close> field is the text
  \<open>Failed to query <token id> balance: <failure message>\<close>, which contains the token id
  and the underlying failure message.
\<close>

theorem queryTokenBalance_failure_result:
  assumes "createActor t = Some e \<or>
           (createActor t = None \<and>
            icrc1_balance_of t (holder, case sub of Some s \<Rightarrow> [s] | None \<Rightarrow> []) = Inl e)"
  shows "queryTokenBalance createActor icrc1_balance_of t holder sub =
           \<lparr>balance = None,
            error = Some (''Failed to query '' @ t @ '' balance: '' @
                          (case e of ErrorObject m \<Rightarrow> m | OtherValue s \<Rightarrow> s))\<rparr>"
  using assms by (auto simp: queryTokenBalance_def)

theorem queryTokenBalance_failure_result_witness:
  "(\<lambda>_ _. Inl (ErrorObject ''Canister not found'') :: thrown + int)
       ''ryjl3-tyaaa-aaaaa-aaaba-cai'' (Principal [4], []) = Inl (ErrorObject ''Canister not found'')
   \<and> queryTokenBalance (\<lambda>_. None) (\<lambda>_ _. Inl (ErrorObject ''Canister not found''))
         ''ryjl3-tyaaa-aaaaa-aaaba-cai'' (Principal [4]) None =
       \<lparr>balance = None,
        error = Some ''Failed to query ryjl3-tyaaa-aaaaa-aaaba-cai balance: Canister not found''\<rparr>"
  using queryTokenBalance_failure_result
    [of "\<lambda>_. None" "''ryjl3-tyaaa-aaaaa-aaaba-cai''" "ErrorObject ''Canister not found''"
        "\<lambda>_ _. Inl (ErrorObject ''Canister not found'')" "Principal [4]" None]
  by simp

text \<open>
  C10. Every call of \<open>queryTokenBalance\<close> returns an object with exactly one of the two
  fields: either \<open>balance\<close>, holding the integer the ledger replied, and no \<open>error\<close>; or
  an \<open>error\<close> string and no \<open>balance\<close>. The function is total: it never throws.
\<close>

theorem queryTokenBalance_exactly_one_field:
  "(\<exists>b. createActor t = None \<and>
        icrc1_balance_of t (holder, case sub of Some s \<Rightarrow> [s] | None \<Rightarrow> []) = Inr b \<and>
        queryTokenBalance createActor icrc1_balance_of t holder sub =
          \<lparr>balance = Some b, error = None\<rparr>)
   \<or> (\<exists>m. queryTokenBalance createActor icrc1_balance_of t holder sub =
          \<lparr>balance = None, error = Some m\<rparr>)"
  by (auto simp: queryTokenBalance_def split: option.splits sum.splits)

section \<open>Token metadata: failures and overlapping lookups\<close>

text \<open>
  C7. Let the cache hold nothing for token \<open>k\<close>. When a lookup's metadata fetch fails, the
  cache is left exactly as it was (nothing stored for \<open>k\<close>, every other entry unchanged)
  and the caller receives the fallback \<open>{name: "Unknown Token", symbol: "", decimals: 8}\<close>.
  A later lookup of \<open>k\<close> issues the fetch again; when that succeeds the caller receives
  the fetched metadata and the cache holds it under \<open>k\<close>, all other entries unchanged.
\<close>

theorem getTokenInfo_failure_not_cached:
  assumes "tokenInfoCache (service w) k = None" and "createActor k = None"
  shows "let w1 = run createActor w [Invoke c k, Settle c (Inl e)];
             w2 = run createActor w1 [Invoke c' k, Settle c' (Inr (n, s, d))]
         in tokenInfoCache (service w1) = tokenInfoCache (service w)
          \<and> resolved w1 c = Some \<lparr>name = ''Unknown Token'', symbol = [], decimals = 8\<rparr>
          \<and> fetchLog w1 = fetchLog w @ [k]
          \<and> fetchLog w2 = fetchLog w @ [k, k]
          \<and> resolved w2 c' = Some \<lparr>name = n, symbol = s, decimals = d\<rparr>
          \<and> tokenInfoCache (service w2) =
              (tokenInfoCache (service w))(k \<mapsto> \<lparr>name = n, symbol = s, decimals = d\<rparr>)"
  using assms
  by (simp add: run_def getTokenInfo_start_def getTokenInfo_resume_def fallbackTokenInfo_def Let_def)

theorem getTokenInfo_failure_not_cached_witness:
  "let w = \<lparr>service = \<lparr>agent = (),
                         tokenInfoCache = [''B'' \<mapsto> \<lparr>name = ''ckBTC'', symbol = ''ckBTC'', decimals = 8\<rparr>]\<rparr>,
            fetchLog = [], suspended = Map.empty, resolved = Map.empty\<rparr>;
       w1 = run (\<lambda>_. None) w [Invoke 1 ''A'', Settle 1 (Inl (ErrorObject ''timeout''))];
       w2 = run (\<lambda>_. None) w1 [Invoke 2 ''A'', Settle 2 (Inr (''Internet Computer'', ''ICP'', 8))]
   in tokenInfoCache (service w) ''A'' = None
    \<and> tokenInfoCache (service w1) = tokenInfoCache (service w)
    \<and> resolved w1 1 = Some \<lparr>name = ''Unknown Token'', symbol = [], decimals = 8\<rparr>
    \<and> fetchLog w2 = [''A'', ''A'']
    \<and> resolved w2 2 = Some \<lparr>name = ''Internet Computer'', symbol = ''ICP'', decimals = 8\<rparr>
    \<and> tokenInfoCache (service w2) ''A'' = Some \<lparr>name = ''Internet Computer'', symbol = ''ICP'', decimals = 8\<rparr>
    \<and> tokenInfoCache (service w2) ''B'' = Some \<lparr>name = ''ckBTC'', symbol = ''ckBTC'', decimals = 8\<rparr>"
  using getTokenInfo_failure_not_cached
    [of "\<lparr>service = \<lparr>agent = (),
                       tokenInfoCache = [''B'' \<mapsto> \<lparr>name = ''ckBTC'', symbol = ''ckBTC'', decimals = 8\<rparr>]\<rparr>,
          fetchLog = [], suspended = Map.empty, resolved = Map.empty\<rparr>"
        "''A''" "\<lambda>_. None" 1 "ErrorObject ''timeout''" 2 "''Internet Computer''" "''ICP''" 8]
  by (simp add: Let_def)

text \<open>
  C5, as the specification states it, fails: \<open>getTokenInfo\<close> keeps no record of a fetch
  in flight, so a second lookup that starts before the first one's fetch has settled
  finds the cache empty and issues a fetch of its own. Here two lookups of the same
  token overlap on a fresh service: two fetches are issued, and when the first fetch
  succeeds and the second fails the two callers receive different values.
\<close>

theorem getTokenInfo_coalescing_counterexample:
  "fetchLog (run (\<lambda>_. None) (initial_world None ())
      [Invoke 1 ''ryjl3-tyaaa-aaaaa-aaaba-cai'', Invoke 2 ''ryjl3-tyaaa-aaaaa-aaaba-cai'',
       Settle 1 (Inr (''Internet Computer'', ''ICP'', 8)), Settle 2 (Inl (ErrorObject ''timeout''))])
     = [''ryjl3-tyaaa-aaaaa-aaaba-cai'', ''ryjl3-tyaaa-aaaaa-aaaba-cai'']
   \<and> resolved (run (\<lambda>_. None) (initial_world None ())
      [Invoke 1 ''ryjl3-tyaaa-aaaaa-aaaba-cai'', Invoke 2 ''ryjl3-tyaaa-aaaaa-aaaba-cai'',
       Settle 1 (Inr (''Internet Computer'', ''ICP'', 8)), Settle 2 (Inl (ErrorObject ''timeout''))]) 1
     = Some \<lparr>name = ''Internet Computer'', symbol = ''ICP'', decimals = 8\<rparr>
   \<and> resolved (run (\<lambda>_. None) (initial_world None ())
      [Invoke 1 ''ryjl3-tyaaa-aaaaa-aaaba-cai'', Invoke 2 ''ryjl3-tyaaa-aaaaa-aaaba-cai'',
       Settle 1 (Inr (''Internet Computer'', ''ICP'', 8)), Settle 2 (Inl (ErrorObject ''timeout''))]) 2
     = Some \<lparr>name = ''Unknown Token'', symbol = [], decimals = 8\<rparr>"
  by (simp add: run_def initial_world_def constructor_def getTokenInfo_start_def
      getTokenInfo_resume_def fallbackTokenInfo_def Let_def)

text \<open>
  C5, amended. If two lookups of the same token both begin while it is uncached, the
  second before the first one's fetch settles, then the metadata fetch is issued twice,
  once per lookup, and each caller receives the outcome of its own fetch: the fetched
  metadata, or the fallback when that fetch failed. This holds in whichever order the two
  fetches settle.
\<close>

theorem getTokenInfo_overlapping_lookups:
  assumes "tokenInfoCache (service w) k = None" and "createActor k = None" and "c1 \<noteq> c2"
  shows "let w' = run createActor w [Invoke c1 k, Invoke c2 k, Settle c1 r1, Settle c2 r2];
             w'' = run createActor w [Invoke c1 k, Invoke c2 k, Settle c2 r2, Settle c1 r1]
         in fetchLog w' = fetchLog w @ [k, k]
          \<and> resolved w' c1 = Some (case r1 of Inr (n, s, d) \<Rightarrow> \<lparr>name = n, symbol = s, decimals = d\<rparr>
                                              | Inl e \<Rightarrow> fallbackTokenInfo)
          \<and> resolved w' c2 = Some (case r2 of Inr (n, s, d) \<Rightarrow> \<lparr>name = n, symbol = s, decimals = d\<rparr>
                                              | Inl e \<Rightarrow> fallbackTokenInfo)
          \<and> fetchLog w'' = fetchLog w' \<and> resolved w'' c1 = resolved w' c1
          \<and> resolved w'' c2 = resolved w' c2"
  using assms
  by (auto simp: run_def getTokenInfo_start_def getTokenInfo_resume_def Let_def
      split: sum.splits prod.splits)

theorem getTokenInfo_overlapping_lookups_witness:
  "let w = initial_world None ();
       w' = run (\<lambda>_. None) w
              [Invoke 1 ''A'', Invoke 2 ''A'', Settle 1 (Inr (''Internet Computer'', ''ICP'', 8)),
               Settle 2 (Inr (''Internet Computer'', ''ICP'', 8))]
   in tokenInfoCache (service w) ''A'' = None \<and> (1::nat) \<noteq> 2
    \<and> fetchLog w' = [''A'', ''A'']
    \<and> resolved w' 1 = Some \<lparr>name = ''Internet Computer'', symbol = ''ICP'', decimals = 8\<rparr>
    \<and> resolved w' 2 = Some \<lparr>name = ''Internet Computer'', symbol = ''ICP'', decimals = 8\<rparr>"
  using getTokenInfo_overlapping_lookups
    [of "initial_world None ()" "''A''" "\<lambda>_. None" 1 2
        "Inr (''Internet Computer'', ''ICP'', 8)" "Inr (''Internet Computer'', ''ICP'', 8)"]
  by (simp add: Let_def initial_world_def constructor_def)

section \<open>Initialisation and the network selector\<close>

text \<open>
  C9. The specification wants an unsupported network selector to abort initialisation.
  The constructor does not: with \<open>DFX_NETWORK = testnet\<close> it returns a service (and starts
  no root key fetch), while \<open>getNetworkConfig\<close>, which would reject the value, is a
  private method that nothing calls.
\<close>

theorem constructor_accepts_unsupported_network:
  "constructor (Some ''testnet'') a = (\<lparr>agent = a, tokenInfoCache = Map.empty\<rparr>, False)
   \<and> getNetworkConfig (Some ''testnet'') = Inl (InvalidNetwork ''testnet'')"
  by (simp add: constructor_def getNetworkConfig_def env_network_def)

end
